theory Spec2Isabelle
  imports Main "HOL-Library.Sublist" "HOL-Library.Word"
begin

section \<open>The static route operator's process bootstrap (cmd/manager/main.go)\<close>

text \<open>
  The functions of \<^verbatim>\<open>cmd/manager/main.go\<close> are embedded as HOL functions. A Go panic
  is a value: a function that can panic returns \<open>iface + 'a\<close>, with \<open>Inl v\<close> for
  \<^verbatim>\<open>panic(v)\<close>. A Go \<^verbatim>\<open>error\<close> variable is an \<open>error option\<close>, \<open>None\<close> being
  \<^verbatim>\<open>nil\<close>. Calls into the Go standard library (\<^verbatim>\<open>strings\<close>, \<^verbatim>\<open>strconv\<close>,
  \<^verbatim>\<open>net\<close>) are modelled by functions of the same name that follow the library's
  documented behaviour on byte strings.
\<close>

subsection \<open>Go values: errors, interface values, formatted text\<close>

datatype num_err = ErrSyntax | ErrRange

text \<open>
  \<^verbatim>\<open>*strconv.NumError{Func, Num, Err}\<close>, \<^verbatim>\<open>*net.ParseError{Type, Text}\<close>, and the
  errors of the external collaborators (Kubernetes client, controller manager), which
  the program never inspects.
\<close>

datatype error =
    NumError string string num_err
  | ParseError string string
  | ExternalError string

datatype fmt_arg = ArgString string | ArgError error

text \<open>
  A string built by \<^verbatim>\<open>fmt.Sprintf(format, args...)\<close>, kept as format and arguments;
  a plain literal has no arguments.
\<close>

datatype message = Sprintf string "fmt_arg list"

text \<open>
  The argument of \<^verbatim>\<open>panic\<close> and the result of \<^verbatim>\<open>recover\<close>, of type
  \<^verbatim>\<open>interface{}\<close>: \<^verbatim>\<open>nil\<close>, an error, a string, or a run-time error such as an
  index out of range.
\<close>

datatype iface =
    Nil
  | ErrorVal error
  | StringVal message
  | RuntimeError string

text \<open>Converting an \<^verbatim>\<open>error\<close> variable to \<^verbatim>\<open>interface{}\<close>: \<^verbatim>\<open>nil\<close> stays \<^verbatim>\<open>nil\<close>.\<close>

fun toIface :: "error option \<Rightarrow> iface" where
  "toIface None = Nil"
| "toIface (Some e) = ErrorVal e"

subsection \<open>Package strings\<close>

text \<open>\<^verbatim>\<open>strings.Contains(s, substr)\<close>: \<^verbatim>\<open>substr\<close> occurs at some position of \<^verbatim>\<open>s\<close>.\<close>

fun Contains :: "string \<Rightarrow> string \<Rightarrow> bool" where
  "Contains [] substr = (substr = [])"
| "Contains (c # cs) substr = (prefix substr (c # cs) \<or> Contains cs substr)"

text \<open>
  The step of \<^verbatim>\<open>genSplit\<close>'s loop: \<^verbatim>\<open>m := Index(s, sep)\<close>, then the piece
  \<^verbatim>\<open>s[:m]\<close> and the rest \<^verbatim>\<open>s[m+len(sep):]\<close>; \<open>None\<close> when \<^verbatim>\<open>m < 0\<close>.
\<close>

fun cutAtSep :: "string \<Rightarrow> string \<Rightarrow> (string \<times> string) option" where
  "cutAtSep [] sep = (if sep = [] then Some ([], []) else None)"
| "cutAtSep (c # cs) sep =
     (if prefix sep (c # cs) then Some ([], drop (length sep) (c # cs))
      else (case cutAtSep cs sep of
              None \<Rightarrow> None
            | Some (piece, rest) \<Rightarrow> Some (c # piece, rest)))"

text \<open>
  \<^verbatim>\<open>genSplit(s, sep, 0, n)\<close> for a non-empty separator and \<^verbatim>\<open>n > 0\<close>: at most
  \<open>k = n - 1\<close> cuts, then the remainder as the last piece.
\<close>

fun genSplit :: "string \<Rightarrow> string \<Rightarrow> nat \<Rightarrow> string list" where
  "genSplit s sep 0 = [s]"
| "genSplit s sep (Suc k) =
     (case cutAtSep s sep of
        None \<Rightarrow> [s]
      | Some (piece, rest) \<Rightarrow> piece # genSplit rest sep k)"

text \<open>
  \<^verbatim>\<open>strings.SplitN(s, sep, n)\<close> and \<^verbatim>\<open>strings.Split(s, sep)\<close> (which is
  \<^verbatim>\<open>SplitN\<close> with \<^verbatim>\<open>n = -1\<close>). With \<^verbatim>\<open>n < 0\<close> the library cuts once per occurrence
  of the separator; a non-empty separator occurs at most \<open>length s\<close> times. An empty
  separator (never passed by this program) splits into single bytes.
\<close>

definition SplitN :: "string \<Rightarrow> string \<Rightarrow> int \<Rightarrow> string list" where
  "SplitN s sep n =
     (if n = 0 then []
      else if sep = [] then
        (if n < 0 \<or> int (length s) \<le> n then map (\<lambda>c. [c]) s
         else map (\<lambda>c. [c]) (take (nat n - 1) s) @ [drop (nat n - 1) s])
      else if n < 0 then genSplit s sep (length s)
      else genSplit s sep (nat n - 1))"

definition Split :: "string \<Rightarrow> string \<Rightarrow> string list" where
  "Split s sep = SplitN s sep (- 1)"

text \<open>\<^verbatim>\<open>strings.Trim(s, cutset)\<close>: leading and trailing bytes of the cutset removed.\<close>

definition Trim :: "string \<Rightarrow> string \<Rightarrow> string" where
  "Trim s cutset =
     rev (dropWhile (\<lambda>c. c \<in> set cutset) (rev (dropWhile (\<lambda>c. c \<in> set cutset) s)))"

subsection \<open>Package strconv\<close>

definition isDigit :: "char \<Rightarrow> bool" where
  "isDigit c = (48 \<le> (of_char c :: nat) \<and> (of_char c :: nat) \<le> 57)"

definition digitVal :: "char \<Rightarrow> int" where
  "digitVal c = int (of_char c) - 48"

definition maxUint64 :: int where
  "maxUint64 = 2 ^ 64 - 1"

text \<open>
  The digit loop of \<^verbatim>\<open>strconv.ParseUint(s, 10, 64)\<close>: a byte that is no decimal digit
  is a syntax error, a value above \<open>2^64 - 1\<close> a range error, each reported where the
  loop meets it.
\<close>

fun parseDigits :: "int \<Rightarrow> string \<Rightarrow> num_err + int" where
  "parseDigits n [] = Inr n"
| "parseDigits n (c # cs) =
     (if \<not> isDigit c then Inl ErrSyntax
      else if n * 10 + digitVal c > maxUint64 then Inl ErrRange
      else parseDigits (n * 10 + digitVal c) cs)"

text \<open>
  \<^verbatim>\<open>strconv.Atoi(s)\<close> on a 64-bit platform: an optional sign, then at least one
  decimal digit, the value within \<open>[-2^63, 2^63 - 1]\<close>. The integer that the library
  returns beside a non-nil error is not part of the model: the caller ignores it.
\<close>

definition Atoi :: "string \<Rightarrow> error + int" where
  "Atoi s =
     (case s of
        [] \<Rightarrow> Inl (NumError ''Atoi'' s ErrSyntax)
      | c # cs \<Rightarrow>
          (let neg = (c = CHR ''-'');
               digits = (if c = CHR ''+'' \<or> c = CHR ''-'' then cs else s)
           in if digits = [] then Inl (NumError ''Atoi'' s ErrSyntax)
              else (case parseDigits 0 digits of
                      Inl e \<Rightarrow> Inl (NumError ''Atoi'' s e)
                    | Inr un \<Rightarrow>
                        if \<not> neg \<and> un \<ge> 2 ^ 63 then Inl (NumError ''Atoi'' s ErrRange)
                        else if neg \<and> un > 2 ^ 63 then Inl (NumError ''Atoi'' s ErrRange)
                        else Inr (if neg then - un else un))))"

subsection \<open>parseTargetTable\<close>

definition defaultRouteTable :: int where
  "defaultRouteTable = 254"

definition parseTargetTable :: "string \<Rightarrow> iface + int" where
  "parseTargetTable targetTableEnv =
     (case Atoi targetTableEnv of
        Inl err \<Rightarrow>
          Inl (StringVal (Sprintf ''Unable to parse custom table 'TARGET_TABLE=%s' %s''
                 [ArgString targetTableEnv, ArgError err]))
      | Inr customTable \<Rightarrow>
          if customTable < 0 \<or> customTable > 254 then
            Inl (StringVal (Sprintf
                   (''Target table must be between 0 and 254 'TARGET_TABLE=%s'' @ [CHR 0x27])
                   [ArgString targetTableEnv]))
          else Inr customTable)"

subsection \<open>Package net and the kernel routing query\<close>

text \<open>\<^verbatim>\<open>net.IP\<close> is a byte slice; the \<^verbatim>\<open>nil\<close> address is the empty list.\<close>

type_synonym net_IP = "8 word list"

record IPNet =
  IP :: net_IP
  Mask :: net_IP

text \<open>
  \<^verbatim>\<open>net.ParseCIDR(s)\<close>, of which the caller keeps the network and the error. The
  library first looks for the byte \<^verbatim>\<open>/\<close>: without one the result is the error
  \<^verbatim>\<open>&ParseError{Type: "CIDR address", Text: s}\<close>. Otherwise the address before the
  slash and the prefix length after it are parsed; that step is the parameter
  \<open>parseAddrMask\<close>, \<open>None\<close> standing for the same error.
\<close>

type_synonym cidr_parser = "string \<Rightarrow> string \<Rightarrow> IPNet option"

definition ParseCIDR :: "cidr_parser \<Rightarrow> string \<Rightarrow> error + IPNet" where
  "ParseCIDR parseAddrMask s =
     (if CHR ''/'' \<notin> set s then Inl (ParseError ''CIDR address'' s)
      else (case parseAddrMask (takeWhile (\<lambda>c. c \<noteq> CHR ''/'') s)
                               (tl (dropWhile (\<lambda>c. c \<noteq> CHR ''/'') s)) of
              None \<Rightarrow> Inl (ParseError ''CIDR address'' s)
            | Some subnetNet \<Rightarrow> Inr subnetNet))"

text \<open>
  \<^verbatim>\<open>netlink.Route\<close>, of which the program reads the field \<^verbatim>\<open>Gw\<close>; the other
  fields are the record's extension.
\<close>

record Route =
  Gw :: net_IP

text \<open>
  \<^verbatim>\<open>netlink.RouteGet(ip)\<close> is a parameter: the kernel's answer, a list of routes and
  an error.
\<close>

type_synonym 'r route_get = "net_IP \<Rightarrow> 'r Route_scheme list \<times> error option"

subsection \<open>collectProtectedSubnets\<close>

text \<open>The inner loop, over the pieces of one variable's value.\<close>

fun parseSubnets :: "cidr_parser \<Rightarrow> IPNet list \<Rightarrow> string list \<Rightarrow> iface + IPNet list" where
  "parseSubnets pam protectedSubnets [] = Inr protectedSubnets"
| "parseSubnets pam protectedSubnets (subnet # rest) =
     (case ParseCIDR pam (Trim subnet '' '') of
        Inl err \<Rightarrow> Inl (ErrorVal err)
      | Inr subnetNet \<Rightarrow> parseSubnets pam (protectedSubnets @ [subnetNet]) rest)"

text \<open>
  The outer loop, over the environment. \<^verbatim>\<open>v[0]\<close> and \<^verbatim>\<open>v[1]\<close> index the result of
  \<^verbatim>\<open>SplitN\<close>; an index beyond its length is a run-time panic.
\<close>

fun collectLoop :: "cidr_parser \<Rightarrow> IPNet list \<Rightarrow> string list \<Rightarrow> iface + IPNet list" where
  "collectLoop pam protectedSubnets [] = Inr protectedSubnets"
| "collectLoop pam protectedSubnets (e # envVars) =
     (case SplitN e ''='' 2 of
        [] \<Rightarrow> Inl (RuntimeError ''index out of range [0] with length 0'')
      | v0 # vs \<Rightarrow>
          if Contains v0 ''PROTECTED_SUBNET_'' then
            (case vs of
               [] \<Rightarrow> Inl (RuntimeError ''index out of range [1] with length 1'')
             | v1 # _ \<Rightarrow>
                 (case parseSubnets pam protectedSubnets (Split v1 '','') of
                    Inl p \<Rightarrow> Inl p
                  | Inr protectedSubnets' \<Rightarrow> collectLoop pam protectedSubnets' envVars))
          else collectLoop pam protectedSubnets envVars)"

definition collectProtectedSubnets :: "cidr_parser \<Rightarrow> string list \<Rightarrow> iface + IPNet list" where
  "collectProtectedSubnets pam envVars = collectLoop pam [] envVars"

subsection \<open>The gateway resolver that main passes as getGw\<close>

definition main_getGw :: "'r route_get \<Rightarrow> net_IP \<Rightarrow> iface + (net_IP \<times> error option)" where
  "main_getGw RouteGet ip =
     (case RouteGet ip of
        (route, err) \<Rightarrow>
          if err \<noteq> None then Inr ([], err)
          else (case route of
                  [] \<Rightarrow> Inl (RuntimeError ''index out of range [0] with length 0'')
                | r # _ \<Rightarrow> Inr (Gw r, None)))"

subsection \<open>mainImpl\<close>

text \<open>
  The collaborators that \<^verbatim>\<open>mainImpl\<close> receives in \<^verbatim>\<open>mainImplParams\<close> are
  represented by what their calls return. \<^verbatim>\<open>metav1.APIResource\<close> is read at its field
  \<^verbatim>\<open>Kind\<close>; a \<^verbatim>\<open>manager.Manager\<close> by the result of its blocking \<^verbatim>\<open>Start\<close>; the
  discovery client by \<^verbatim>\<open>ServerResourcesForGroupVersion\<close>; a \<^verbatim>\<open>RouteManager\<close> instance
  by its identity.
\<close>

record APIResource =
  Name :: string
  Kind :: string

record Manager =
  Start :: "error option"

record discoverable =
  ServerResourcesForGroupVersion :: "string \<Rightarrow> APIResource list \<times> error option"

type_synonym RouteManager = nat

record ManagerOptions =
  Hostname :: string
  Table :: int
  ProtectedSubnets :: "IPNet list"
  RouteManager :: RouteManager
  GetGw :: "net_IP \<Rightarrow> iface + (net_IP \<times> error option)"

record collaborators =
  getEnv :: "string \<Rightarrow> string"
  osEnv :: "string list"
  getConfig :: "error option"
  newManager :: "Manager \<times> error option"
  addToScheme :: "error option"
  newKubernetesConfig :: "discoverable \<times> error option"
  newRouterManager :: RouteManager
  addStaticRouteController :: "ManagerOptions \<Rightarrow> error option"
  addNodeController :: "error option"

record mainImplParams = collaborators +
  getGw :: "net_IP \<Rightarrow> iface + (net_IP \<times> error option)"

text \<open>
  The observable effects, in program order: log lines, the creation of a route manager,
  the \<^verbatim>\<open>go\<close> statement that starts \<^verbatim>\<open>Run\<close> on it in a new goroutine, the registration
  of the controllers and the start of the manager. What the new goroutine does
  afterwards is outside the model.
\<close>

datatype event =
    LogInfo message
  | LogInfoKV string string int
  | LogError error string
  | LogRecovered iface
  | NewRouterManager RouteManager
  | GoRun RouteManager
  | AddStaticRouteController ManagerOptions
  | AddNodeController
  | ManagerStart

text \<open>Lines 187 to 191: the table is the default unless \<^verbatim>\<open>TARGET_TABLE\<close> is non-empty.\<close>

definition selectTable :: "(string \<Rightarrow> string) \<Rightarrow> iface + int" where
  "selectTable getenv =
     (let targetTableEnv = getenv ''TARGET_TABLE''
      in if length targetTableEnv \<noteq> 0 then parseTargetTable targetTableEnv
         else Inr defaultRouteTable)"

text \<open>
  The loop over \<^verbatim>\<open>resources.APIResources\<close>. Its result is the panic that left it, or
  the value of \<^verbatim>\<open>crdFound\<close> after it.
\<close>

fun resourceLoop ::
  "mainImplParams \<Rightarrow> string \<Rightarrow> int \<Rightarrow> IPNet list \<Rightarrow> APIResource list
     \<Rightarrow> event list \<times> (iface + bool)" where
  "resourceLoop params hostname table protectedSubnets [] = ([], Inr False)"
| "resourceLoop params hostname table protectedSubnets (resource # rest) =
     (if Kind resource \<noteq> ''StaticRoute'' then
        resourceLoop params hostname table protectedSubnets rest
      else
        (let routeManager = newRouterManager params;
             options = \<lparr>Hostname = hostname, Table = table,
                        ProtectedSubnets = protectedSubnets,
                        RouteManager = routeManager, GetGw = getGw params\<rparr>;
             trace = [NewRouterManager routeManager, GoRun routeManager,
                      AddStaticRouteController options]
         in (case addStaticRouteController params options of
               Some err \<Rightarrow> (trace, Inl (ErrorVal err))
             | None \<Rightarrow> (trace, Inr True))))"

definition mainImpl :: "cidr_parser \<Rightarrow> mainImplParams \<Rightarrow> event list \<times> (iface + unit)" where
  "mainImpl pam params =
     (let err = getConfig params in
      if err \<noteq> None then ([], Inl (toIface err)) else
      let (mgr, err) = newManager params in
      if err \<noteq> None then ([], Inl (toIface err)) else
      let t1 = [LogInfo (Sprintf ''Registering Components.'' [])] in
      if addToScheme params \<noteq> None then (t1, Inl (toIface (addToScheme params))) else
      let hostname = getEnv params ''NODE_HOSTNAME'' in
      if hostname = [] then
        (t1, Inl (StringVal (Sprintf ''Missing environment variable: NODE_HOSTNAME'' [])))
      else
      let t2 = t1 @ [LogInfo (Sprintf ''Node Hostname: %s'' [ArgString hostname]),
                     LogInfo (Sprintf ''Registering Components.'' [])] in
      let (clientset, err) = newKubernetesConfig params in
      if err \<noteq> None then (t2, Inl (toIface err)) else
      let (resources, err) =
            ServerResourcesForGroupVersion clientset ''static-route.ibm.com/v1'' in
      if err \<noteq> None then (t2, Inl (toIface err)) else
      (case selectTable (getEnv params) of
         Inl p \<Rightarrow> (t2, Inl p)
       | Inr table \<Rightarrow>
      let t3 = t2 @ [LogInfoKV ''Table selected'' ''value'' table] in
      (case collectProtectedSubnets pam (osEnv params) of
         Inl p \<Rightarrow> (t3, Inl p)
       | Inr protectedSubnets \<Rightarrow>
      (case resourceLoop params hostname table protectedSubnets resources of
         (t4, Inl p) \<Rightarrow> (t3 @ t4, Inl p)
       | (t4, Inr crdFound) \<Rightarrow>
      if \<not> crdFound then
        (t3 @ t4 @ [LogInfo (Sprintf ''CRD not found: staticroutes.static-route.ibm.com'' [])],
         Inl (toIface err))
      else
      let t5 = t3 @ t4 @ [AddNodeController] in
      if addNodeController params \<noteq> None then (t5, Inl (toIface (addNodeController params)))
      else
      let t6 = t5 @ [LogInfo (Sprintf ''Starting the Cmd.'' []), ManagerStart] in
      (case Start mgr of
         Some e \<Rightarrow> (t6 @ [LogError e ''Manager exited non-zero''], Inl (ErrorVal e))
       | None \<Rightarrow> (t6, Inr ()))))))"

subsection \<open>main\<close>

text \<open>
  \<^verbatim>\<open>main\<close> after the command line is parsed and the version printed: it runs
  \<^verbatim>\<open>mainImpl\<close> on the real collaborators with the gateway resolver above, under the
  deferred handler. \<^verbatim>\<open>recover()\<close> returns the argument of the panic and stops the
  panic; it returns \<^verbatim>\<open>nil\<close> when there is no panic and also, in the Go versions
  before 1.21 that this program's dependencies belong to, after \<^verbatim>\<open>panic(nil)\<close>. The
  handler calls \<^verbatim>\<open>os.Exit(1)\<close> only for a non-nil result; otherwise \<^verbatim>\<open>main\<close> returns
  and the exit status is 0. The result is the trace and the exit status.
\<close>

definition main :: "cidr_parser \<Rightarrow> 'r route_get \<Rightarrow> collaborators \<Rightarrow> event list \<times> nat" where
  "main pam RouteGet os =
     (case mainImpl pam (collaborators.extend os
                           (mainImplParams.fields (main_getGw RouteGet))) of
        (trace, Inr u) \<Rightarrow> (trace, 0)
      | (trace, Inl r) \<Rightarrow>
          if r \<noteq> Nil then (trace @ [LogRecovered r], 1) else (trace, 0))"

section \<open>The specification's reading of the configuration\<close>

text \<open>
  An environment entry has the form \<^verbatim>\<open>NAME=value\<close>: the name ends at the first
  \<^verbatim>\<open>=\<close>, the value is what follows it.
\<close>

definition envName :: "string \<Rightarrow> string" where
  "envName e = takeWhile (\<lambda>c. c \<noteq> CHR ''='') e"

definition envValue :: "string \<Rightarrow> string" where
  "envValue e = tl (dropWhile (\<lambda>c. c \<noteq> CHR ''='') e)"

text \<open>A protected-subnet variable is one that the program's test on the name selects.\<close>

definition isProtectedSubnetVar :: "string \<Rightarrow> bool" where
  "isProtectedSubnetVar e = Contains (envName e) ''PROTECTED_SUBNET_''"

text \<open>
  The collection as the specification words it: every protected-subnet variable, its
  value split on commas, each piece trimmed of surrounding spaces and parsed as a CIDR
  block, in the order of the variables and of the commas.
\<close>

definition spec_pieces :: "string list \<Rightarrow> string list" where
  "spec_pieces envVars =
     concat (map (\<lambda>e. map (\<lambda>piece. Trim piece '' '') (Split (envValue e) '',''))
                 (filter isProtectedSubnetVar envVars))"

definition spec_protectedSubnets :: "cidr_parser \<Rightarrow> string list \<Rightarrow> (error + IPNet) list" where
  "spec_protectedSubnets pam envVars = map (ParseCIDR pam) (spec_pieces envVars)"

text \<open>
  A string that is a decimal integer, an optional sign before at least one digit, and
  the integer it denotes.
\<close>

definition spec_isNumeric :: "string \<Rightarrow> bool" where
  "spec_isNumeric s =
     (case s of
        [] \<Rightarrow> False
      | c # cs \<Rightarrow>
          (let digits = (if c = CHR ''+'' \<or> c = CHR ''-'' then cs else s)
           in digits \<noteq> [] \<and> list_all isDigit digits))"

definition spec_digitsValue :: "string \<Rightarrow> int" where
  "spec_digitsValue ds = foldl (\<lambda>n c. n * 10 + digitVal c) 0 ds"

definition spec_intValue :: "string \<Rightarrow> int" where
  "spec_intValue s =
     (case s of
        [] \<Rightarrow> 0
      | c # cs \<Rightarrow>
          if c = CHR ''-'' then - spec_digitsValue cs
          else if c = CHR ''+'' then spec_digitsValue cs
          else spec_digitsValue s)"

section \<open>Reading a trace\<close>

fun createdManagers :: "event list \<Rightarrow> RouteManager list" where
  "createdManagers [] = []"
| "createdManagers (NewRouterManager rm # t) = rm # createdManagers t"
| "createdManagers (_ # t) = createdManagers t"

fun startedRuns :: "event list \<Rightarrow> RouteManager list" where
  "startedRuns [] = []"
| "startedRuns (GoRun rm # t) = rm # startedRuns t"
| "startedRuns (_ # t) = startedRuns t"

fun registeredOptions :: "event list \<Rightarrow> ManagerOptions list" where
  "registeredOptions [] = []"
| "registeredOptions (AddStaticRouteController options # t) = options # registeredOptions t"
| "registeredOptions (_ # t) = registeredOptions t"

text \<open>A trace in which no route manager was created or started and no controller registered.\<close>

definition onlyLogs :: "event list \<Rightarrow> bool" where
  "onlyLogs t = (createdManagers t = [] \<and> startedRuns t = [] \<and> registeredOptions t = [])"

section \<open>Example inputs\<close>

text \<open>
  The theorems below hold for every address parser, every kernel answer and all
  collaborators. The examples are evaluated on an address parser that knows two IPv4
  networks, a kernel that answers for three destinations, and collaborators whose calls
  all succeed, for a given environment and a given list of discovered resources.
\<close>

definition example_parser :: cidr_parser where
  "example_parser addr bits =
     (if addr = ''10.0.0.0'' \<and> bits = ''8'' then
        Some \<lparr>IP = [10, 0, 0, 0], Mask = [255, 0, 0, 0]\<rparr>
      else if addr = ''192.168.0.0'' \<and> bits = ''16'' then
        Some \<lparr>IP = [192, 168, 0, 0], Mask = [255, 255, 0, 0]\<rparr>
      else None)"

definition example_RouteGet :: "unit route_get" where
  "example_RouteGet ip =
     (if ip = [192, 168, 1, 1] then ([\<lparr>Gw = [10, 0, 0, 1]\<rparr>, \<lparr>Gw = [10, 0, 0, 2]\<rparr>], None)
      else if ip = [203, 0, 113, 1] then ([], Some (ExternalError ''network is unreachable''))
      else ([], None))"

text \<open>\<^verbatim>\<open>os.Getenv\<close> on the environment \<^verbatim>\<open>os.Environ\<close>: the first entry of that name.\<close>

fun lookupEnv :: "string list \<Rightarrow> string \<Rightarrow> string" where
  "lookupEnv [] key = []"
| "lookupEnv (e # es) key =
     (if CHR ''='' \<in> set e \<and> envName e = key then envValue e else lookupEnv es key)"

definition example_collaborators :: "string list \<Rightarrow> APIResource list \<Rightarrow> collaborators" where
  "example_collaborators env resources =
     \<lparr>getEnv = lookupEnv env,
      osEnv = env,
      getConfig = None,
      newManager = (\<lparr>Start = None\<rparr>, None),
      addToScheme = None,
      newKubernetesConfig =
        (\<lparr>ServerResourcesForGroupVersion = (\<lambda>groupVersion. (resources, None))\<rparr>, None),
      newRouterManager = 0,
      addStaticRouteController = (\<lambda>options. None),
      addNodeController = None\<rparr>"

definition example_params :: "string list \<Rightarrow> APIResource list \<Rightarrow> mainImplParams" where
  "example_params env resources =
     collaborators.extend (example_collaborators env resources)
       (mainImplParams.fields (main_getGw example_RouteGet))"

section \<open>Facts about the library functions\<close>

lemma Contains_iff_sublist: "Contains s sub \<longleftrightarrow> sublist sub s"
  by (induction s) (auto simp: sublist_Cons_right)

lemma Contains_iff: "Contains s sub \<longleftrightarrow> (\<exists>pre post. s = pre @ sub @ post)"
  by (simp add: Contains_iff_sublist sublist_def)

lemma cutAtSep_char:
  "cutAtSep s [c] =
     (if c \<in> set s then Some (takeWhile (\<lambda>x. x \<noteq> c) s, tl (dropWhile (\<lambda>x. x \<noteq> c) s))
      else None)"
  by (induction s) auto

lemma SplitN_eq_2:
  "SplitN e ''='' 2 = (if CHR ''='' \<in> set e then [envName e, envValue e] else [e])"
  by (simp add: SplitN_def cutAtSep_char envName_def envValue_def numeral_2_eq_2)

lemma envName_no_eq: "CHR ''='' \<notin> set e \<Longrightarrow> envName e = e"
  by (auto simp: envName_def)

lemma digitVal_nonneg: "isDigit c \<Longrightarrow> 0 \<le> digitVal c"
  by (simp add: isDigit_def digitVal_def)

lemma foldl_digits_mono:
  "list_all isDigit ds \<Longrightarrow> 0 \<le> n \<Longrightarrow> n \<le> foldl (\<lambda>n c. n * 10 + digitVal c) n ds"
proof (induction ds arbitrary: n)
  case Nil
  show ?case by simp
next
  case (Cons c ds)
  have d: "0 \<le> digitVal c" using Cons.prems(1) by (simp add: digitVal_nonneg)
  have "n * 10 + digitVal c \<le> foldl (\<lambda>n c. n * 10 + digitVal c) (n * 10 + digitVal c) ds"
    using Cons.IH [of "n * 10 + digitVal c"] Cons.prems d by simp
  then show ?case using d Cons.prems(2) by simp
qed

lemma parseDigits_digits:
  "list_all isDigit ds \<Longrightarrow> 0 \<le> n \<Longrightarrow> n \<le> maxUint64 \<Longrightarrow>
     parseDigits n ds =
       (if foldl (\<lambda>n c. n * 10 + digitVal c) n ds > maxUint64 then Inl ErrRange
        else Inr (foldl (\<lambda>n c. n * 10 + digitVal c) n ds))"
proof (induction ds arbitrary: n)
  case Nil
  then show ?case by simp
next
  case (Cons c ds)
  have d: "0 \<le> digitVal c" using Cons.prems(1) by (simp add: digitVal_nonneg)
  have mono: "n * 10 + digitVal c
                \<le> foldl (\<lambda>n c. n * 10 + digitVal c) (n * 10 + digitVal c) ds"
    using foldl_digits_mono [of ds "n * 10 + digitVal c"] Cons.prems d by simp
  show ?case
  proof (cases "n * 10 + digitVal c > maxUint64")
    case True
    then show ?thesis using Cons.prems(1) mono by simp
  next
    case False
    then show ?thesis
      using Cons.IH [of "n * 10 + digitVal c"] Cons.prems d by simp
  qed
qed

lemma spec_digitsValue_nonneg: "list_all isDigit ds \<Longrightarrow> 0 \<le> spec_digitsValue ds"
  using foldl_digits_mono [of ds 0] by (simp add: spec_digitsValue_def)

lemma parseDigits_0:
  "list_all isDigit ds \<Longrightarrow>
     parseDigits 0 ds =
       (if spec_digitsValue ds > maxUint64 then Inl ErrRange else Inr (spec_digitsValue ds))"
  using parseDigits_digits [of ds 0] by (simp add: spec_digitsValue_def maxUint64_def)

lemma parseDigits_Inr_digits: "parseDigits n ds = Inr m \<Longrightarrow> list_all isDigit ds"
  by (induction ds arbitrary: n) (auto split: if_splits)

lemma Atoi_Inr_isNumeric: "Atoi s = Inr n \<Longrightarrow> spec_isNumeric s"
  by (auto simp: Atoi_def spec_isNumeric_def Let_def split: list.splits sum.splits if_splits
      dest: parseDigits_Inr_digits)

text \<open>
  \<^verbatim>\<open>Atoi\<close> succeeds exactly on the decimal integers that fit a 64-bit \<^verbatim>\<open>int\<close>.
\<close>

lemma Atoi_Inr_iff:
  "Atoi s = Inr n \<longleftrightarrow>
     spec_isNumeric s \<and> spec_intValue s = n \<and> - (2 ^ 63) \<le> n \<and> n < 2 ^ 63"
proof (cases "spec_isNumeric s")
  case False
  then show ?thesis using Atoi_Inr_isNumeric by blast
next
  case True
  then obtain c cs where s: "s = c # cs"
    by (cases s) (auto simp: spec_isNumeric_def)
  show ?thesis
  proof (cases "c = CHR ''+'' \<or> c = CHR ''-''")
    case sign: True
    then have ds: "cs \<noteq> []" "list_all isDigit cs"
      using True s by (auto simp: spec_isNumeric_def)
    show ?thesis
      using sign ds True s parseDigits_0 [of cs] spec_digitsValue_nonneg [of cs]
      by (auto simp: Atoi_def spec_intValue_def maxUint64_def Let_def)
  next
    case nosign: False
    then have ds: "list_all isDigit s"
      using True s by (auto simp: spec_isNumeric_def)
    show ?thesis
      using nosign ds True s parseDigits_0 [of s] spec_digitsValue_nonneg [of s]
      by (auto simp: Atoi_def spec_intValue_def maxUint64_def Let_def)
  qed
qed

section \<open>The target table\<close>

lemma parseTargetTable_Inr_iff:
  "parseTargetTable s = Inr n \<longleftrightarrow> Atoi s = Inr n \<and> 0 \<le> n \<and> n \<le> 254"
  by (auto simp: parseTargetTable_def split: sum.splits)

lemma parseTargetTable_Inl_not_Nil: "parseTargetTable s = Inl p \<Longrightarrow> p \<noteq> Nil"
  by (auto simp: parseTargetTable_def split: sum.splits if_splits)

text \<open>
  Claim C2. For every string, \<^verbatim>\<open>parseTargetTable\<close> returns \<open>n\<close> exactly when the string
  is a decimal integer denoting \<open>n\<close> and \<open>0 \<le> n \<le> 254\<close>, which is exactly when
  \<^verbatim>\<open>strconv.Atoi\<close> returns \<open>n\<close> in that range; on every other string, the non-numeric
  ones and those denoting an integer outside the range, it panics with a non-nil value
  and returns no table id.
\<close>

theorem parseTargetTable_range:
  "(parseTargetTable s = Inr n \<longleftrightarrow>
      spec_isNumeric s \<and> spec_intValue s = n \<and> 0 \<le> n \<and> n \<le> 254) \<and>
   (parseTargetTable s = Inr n \<longleftrightarrow> Atoi s = Inr n \<and> 0 \<le> n \<and> n \<le> 254) \<and>
   (\<not> (spec_isNumeric s \<and> 0 \<le> spec_intValue s \<and> spec_intValue s \<le> 254) \<longrightarrow>
      (\<exists>p. p \<noteq> Nil \<and> parseTargetTable s = Inl p))"
proof -
  have a: "parseTargetTable s = Inr n \<longleftrightarrow>
             spec_isNumeric s \<and> spec_intValue s = n \<and> 0 \<le> n \<and> n \<le> 254"
    by (auto simp: parseTargetTable_Inr_iff Atoi_Inr_iff)
  have c: "\<exists>p. p \<noteq> Nil \<and> parseTargetTable s = Inl p"
    if bad: "\<not> (spec_isNumeric s \<and> 0 \<le> spec_intValue s \<and> spec_intValue s \<le> 254)"
  proof (cases "parseTargetTable s")
    case (Inl p)
    then show ?thesis using parseTargetTable_Inl_not_Nil by blast
  next
    case (Inr m)
    then have "spec_isNumeric s \<and> spec_intValue s = m \<and> 0 \<le> m \<and> m \<le> 254"
      by (auto simp: parseTargetTable_Inr_iff Atoi_Inr_iff)
    then show ?thesis using bad by simp
  qed
  show ?thesis
    using a c parseTargetTable_Inr_iff [of s n] by blast
qed

theorem parseTargetTable_range_witness:
  "spec_isNumeric ''100'' \<and> spec_intValue ''100'' = 100 \<and> parseTargetTable ''100'' = Inr 100 \<and>
   \<not> spec_isNumeric ''abc'' \<and> (\<exists>p. p \<noteq> Nil \<and> parseTargetTable ''abc'' = Inl p) \<and>
   spec_isNumeric ''255'' \<and> spec_intValue ''255'' = 255 \<and>
   (\<exists>p. p \<noteq> Nil \<and> parseTargetTable ''255'' = Inl p)"
proof -
  have ok: "spec_isNumeric ''100'' \<and> spec_intValue ''100'' = 100"
    by (simp add: spec_isNumeric_def spec_intValue_def spec_digitsValue_def isDigit_def
        digitVal_def)
  have word: "\<not> spec_isNumeric ''abc''"
    by (simp add: spec_isNumeric_def isDigit_def)
  have big: "spec_isNumeric ''255'' \<and> spec_intValue ''255'' = 255"
    by (simp add: spec_isNumeric_def spec_intValue_def spec_digitsValue_def isDigit_def
        digitVal_def)
  show ?thesis
    using ok word big
      parseTargetTable_range [of "''100''" 100]
      parseTargetTable_range [of "''abc''" 0]
      parseTargetTable_range [of "''255''" 0]
    by simp
qed

section \<open>The gateway resolver\<close>

text \<open>
  Claim C5. For every destination address the resolver queries the kernel. When the
  query succeeds and its result has a first route, the resolver returns that route's
  gateway and no error; when the query fails, it returns the nil gateway and the
  query's error.
\<close>

theorem main_getGw_first_route:
  "(RouteGet ip = (r # rs, None) \<longrightarrow> main_getGw RouteGet ip = Inr (Gw r, None)) \<and>
   (RouteGet ip = (routes, Some e) \<longrightarrow> main_getGw RouteGet ip = Inr ([], Some e))"
  by (simp add: main_getGw_def)

theorem main_getGw_first_route_witness:
  "example_RouteGet [192, 168, 1, 1] = ([\<lparr>Gw = [10, 0, 0, 1]\<rparr>, \<lparr>Gw = [10, 0, 0, 2]\<rparr>], None) \<and>
   main_getGw example_RouteGet [192, 168, 1, 1] = Inr ([10, 0, 0, 1], None) \<and>
   example_RouteGet [203, 0, 113, 1] = ([], Some (ExternalError ''network is unreachable'')) \<and>
   main_getGw example_RouteGet [203, 0, 113, 1]
     = Inr ([], Some (ExternalError ''network is unreachable''))"
proof -
  have ok: "example_RouteGet [192, 168, 1, 1]
              = (\<lparr>Gw = [10, 0, 0, 1]\<rparr> # [\<lparr>Gw = [10, 0, 0, 2]\<rparr>], None)"
    by (simp add: example_RouteGet_def)
  have failed: "example_RouteGet [203, 0, 113, 1]
                  = ([], Some (ExternalError ''network is unreachable''))"
    by (simp add: example_RouteGet_def)
  show ?thesis
    using ok failed
      main_getGw_first_route [of example_RouteGet "[192, 168, 1, 1]" "\<lparr>Gw = [10, 0, 0, 1]\<rparr>"
        "[\<lparr>Gw = [10, 0, 0, 2]\<rparr>]" "[]" "ExternalError ''network is unreachable''"]
      main_getGw_first_route [of example_RouteGet "[203, 0, 113, 1]" "\<lparr>Gw = [10, 0, 0, 1]\<rparr>"
        "[]" "[]" "ExternalError ''network is unreachable''"]
    by simp
qed

text \<open>
  Claim C8. The resolver indexes the first route without a check of the length: for
  every destination for which the kernel query returns no error and an empty list of
  routes, the resolver panics with an index out of range and returns no error value.
\<close>

theorem main_getGw_empty_panics:
  "RouteGet ip = ([], None) \<Longrightarrow>
     main_getGw RouteGet ip = Inl (RuntimeError ''index out of range [0] with length 0'')"
  by (simp add: main_getGw_def)

theorem main_getGw_empty_panics_witness:
  "example_RouteGet [198, 51, 100, 7] = ([], None) \<and>
   main_getGw example_RouteGet [198, 51, 100, 7]
     = Inl (RuntimeError ''index out of range [0] with length 0'')"
proof -
  have empty: "example_RouteGet [198, 51, 100, 7] = ([], None)"
    by (simp add: example_RouteGet_def)
  show ?thesis
    using empty main_getGw_empty_panics [of example_RouteGet "[198, 51, 100, 7]"] by simp
qed

section \<open>The loops of collectProtectedSubnets\<close>

lemma parseSubnets_acc:
  "parseSubnets pam acc ps =
     (case parseSubnets pam [] ps of Inl p \<Rightarrow> Inl p | Inr ns \<Rightarrow> Inr (acc @ ns))"
proof (induction ps arbitrary: acc)
  case Nil
  show ?case by simp
next
  case (Cons s ps)
  show ?case
  proof (cases "ParseCIDR pam (Trim s '' '')")
    case (Inl err)
    then show ?thesis by simp
  next
    case (Inr n)
    then show ?thesis
      using Cons.IH [of "acc @ [n]"] Cons.IH [of "[n]"]
      by (simp split: sum.splits)
  qed
qed

lemma parseSubnets_Inr_iff:
  "parseSubnets pam [] ps = Inr ns \<longleftrightarrow>
     map (\<lambda>piece. ParseCIDR pam (Trim piece '' '')) ps = map Inr ns"
proof (induction ps arbitrary: ns)
  case Nil
  show ?case by auto
next
  case (Cons s ps)
  show ?case
  proof (cases "ParseCIDR pam (Trim s '' '')")
    case (Inl err)
    then show ?thesis by (auto simp: map_eq_Cons_conv)
  next
    case (Inr n)
    have "parseSubnets pam [] (s # ps) =
            (case parseSubnets pam [] ps of Inl p \<Rightarrow> Inl p | Inr ms \<Rightarrow> Inr (n # ms))"
      using Inr parseSubnets_acc [of pam "[n]" ps] by (simp split: sum.splits)
    then show ?thesis
      using Inr Cons.IH
      by (cases "parseSubnets pam [] ps") (auto simp: Cons_eq_map_conv)
  qed
qed

lemma parseSubnets_Inl_not_Nil: "parseSubnets pam acc ps = Inl p \<Longrightarrow> p \<noteq> Nil"
  by (induction ps arbitrary: acc) (auto split: sum.splits)

lemma collectLoop_acc:
  "collectLoop pam acc es =
     (case collectLoop pam [] es of Inl p \<Rightarrow> Inl p | Inr ns \<Rightarrow> Inr (acc @ ns))"
proof (induction es arbitrary: acc)
  case Nil
  show ?case by simp
next
  case (Cons e es)
  show ?case
  proof (cases "isProtectedSubnetVar e \<and> CHR ''='' \<in> set e")
    case True
    show ?thesis
    proof (cases "parseSubnets pam [] (Split (envValue e) '','')")
      case (Inl p)
      then show ?thesis
        using True parseSubnets_acc [of pam acc "Split (envValue e) '',''"]
        by (simp add: SplitN_eq_2 isProtectedSubnetVar_def)
    next
      case (Inr a)
      then show ?thesis
        using True parseSubnets_acc [of pam acc "Split (envValue e) '',''"]
          Cons.IH [of "acc @ a"] Cons.IH [of a]
        by (simp add: SplitN_eq_2 isProtectedSubnetVar_def split: sum.splits)
    qed
  next
    case False
    then show ?thesis
      using Cons.IH [of acc]
      by (auto simp: SplitN_eq_2 isProtectedSubnetVar_def envName_no_eq)
  qed
qed

lemma collectLoop_Cons:
  "collectLoop pam [] (e # es) =
     (if isProtectedSubnetVar e then
        (if CHR ''='' \<in> set e then
           (case parseSubnets pam [] (Split (envValue e) '','') of
              Inl p \<Rightarrow> Inl p
            | Inr a \<Rightarrow> (case collectLoop pam [] es of Inl p \<Rightarrow> Inl p | Inr b \<Rightarrow> Inr (a @ b)))
         else Inl (RuntimeError ''index out of range [1] with length 1''))
      else collectLoop pam [] es)"
proof (cases "CHR ''='' \<in> set e")
  case False
  then show ?thesis
    by (simp add: SplitN_eq_2 isProtectedSubnetVar_def envName_no_eq)
next
  case True
  show ?thesis
  proof (cases "parseSubnets pam [] (Split (envValue e) '','')")
    case (Inl p)
    then show ?thesis
      using True by (simp add: SplitN_eq_2 isProtectedSubnetVar_def)
  next
    case (Inr a)
    then show ?thesis
      using True collectLoop_acc [of pam a es]
      by (simp add: SplitN_eq_2 isProtectedSubnetVar_def)
  qed
qed

lemma collectLoop_append:
  "collectLoop pam [] (xs @ ys) =
     (case collectLoop pam [] xs of
        Inl p \<Rightarrow> Inl p
      | Inr a \<Rightarrow> (case collectLoop pam [] ys of Inl p \<Rightarrow> Inl p | Inr b \<Rightarrow> Inr (a @ b)))"
proof (induction xs)
  case Nil
  show ?case by (simp split: sum.splits)
next
  case (Cons e xs)
  have "collectLoop pam [] ((e # xs) @ ys) = collectLoop pam [] (e # (xs @ ys))"
    by simp
  also have "\<dots> =
     (case collectLoop pam [] (e # xs) of
        Inl p \<Rightarrow> Inl p
      | Inr a \<Rightarrow> (case collectLoop pam [] ys of Inl p \<Rightarrow> Inl p | Inr b \<Rightarrow> Inr (a @ b)))"
    unfolding collectLoop_Cons [of pam e "xs @ ys"] collectLoop_Cons [of pam e xs] Cons.IH
    by (simp split: sum.splits)
  finally show ?case .
qed

lemma collectLoop_Inl_not_Nil: "collectLoop pam [] es = Inl p \<Longrightarrow> p \<noteq> Nil"
proof (induction es)
  case Nil
  then show ?case by simp
next
  case (Cons e es)
  then show ?case
    unfolding collectLoop_Cons [of pam e es]
    by (auto split: if_splits sum.splits dest: parseSubnets_Inl_not_Nil)
qed

lemma collectLoop_Inr_iff:
  "collectLoop pam [] es = Inr ns \<longleftrightarrow>
     (\<forall>e \<in> set es. isProtectedSubnetVar e \<longrightarrow> CHR ''='' \<in> set e) \<and>
     spec_protectedSubnets pam es = map Inr ns"
proof (induction es arbitrary: ns)
  case Nil
  show ?case by (auto simp: spec_protectedSubnets_def spec_pieces_def)
next
  case (Cons e es)
  show ?case
  proof (cases "isProtectedSubnetVar e")
    case False
    then show ?thesis
      using Cons.IH
      by (simp add: collectLoop_Cons spec_protectedSubnets_def spec_pieces_def
          del: collectLoop.simps)
  next
    case sel: True
    show ?thesis
    proof (cases "CHR ''='' \<in> set e")
      case False
      then show ?thesis using sel by (simp add: collectLoop_Cons del: collectLoop.simps)
    next
      case True
      have pieces: "spec_protectedSubnets pam (e # es) =
          map (\<lambda>piece. ParseCIDR pam (Trim piece '' '')) (Split (envValue e) '','')
            @ spec_protectedSubnets pam es"
        using sel by (simp add: spec_protectedSubnets_def spec_pieces_def comp_def)
      have head: "collectLoop pam [] (e # es) =
          (case parseSubnets pam [] (Split (envValue e) '','') of
             Inl p \<Rightarrow> Inl p
           | Inr a \<Rightarrow> (case collectLoop pam [] es of Inl p \<Rightarrow> Inl p | Inr b \<Rightarrow> Inr (a @ b)))"
        using sel True by (simp add: collectLoop_Cons del: collectLoop.simps)
      have wf: "(\<forall>x \<in> set (e # es). isProtectedSubnetVar x \<longrightarrow> CHR ''='' \<in> set x) \<longleftrightarrow>
          (\<forall>x \<in> set es. isProtectedSubnetVar x \<longrightarrow> CHR ''='' \<in> set x)"
        using True by simp
      show ?thesis
      proof (cases "parseSubnets pam [] (Split (envValue e) '','')")
        case (Inl p)
        then have "\<And>a. map (\<lambda>piece. ParseCIDR pam (Trim piece '' '')) (Split (envValue e) '','')
                     \<noteq> map Inr a"
          using parseSubnets_Inr_iff [of pam "Split (envValue e) '',''"] by simp
        then show ?thesis
          unfolding head pieces wf using Inl by (simp add: append_eq_map_conv)
      next
        case a: (Inr a)
        then have amap: "map (\<lambda>piece. ParseCIDR pam (Trim piece '' '')) (Split (envValue e) '','')
                     = map Inr a"
          using parseSubnets_Inr_iff [of pam "Split (envValue e) '','' " a] by simp
        show ?thesis
        proof (cases "collectLoop pam [] es")
          case (Inl p)
          then have "\<And>b. \<not> ((\<forall>x \<in> set es. isProtectedSubnetVar x \<longrightarrow> CHR ''='' \<in> set x) \<and>
                       spec_protectedSubnets pam es = map Inr b)"
            using Cons.IH by simp
          then show ?thesis
            unfolding head pieces wf using a Inl by (auto simp: append_eq_map_conv)
        next
          case (Inr b)
          then have b: "(\<forall>x \<in> set es. isProtectedSubnetVar x \<longrightarrow> CHR ''='' \<in> set x) \<and>
                       spec_protectedSubnets pam es = map Inr b"
            using Cons.IH [of b] by simp
          show ?thesis
            unfolding head pieces wf using a Inr b amap
            by (auto simp: append_eq_map_conv map_eq_conv inj_map_eq_map dest: map_inj_on)
        qed
      qed
    qed
  qed
qed


lemma isProtectedSubnetVar_iff:
  "isProtectedSubnetVar e \<longleftrightarrow> (\<exists>pre post. envName e = pre @ ''PROTECTED_SUBNET_'' @ post)"
  unfolding isProtectedSubnetVar_def by (rule Contains_iff)

lemma collectLoop_middle:
  "collectLoop pam [] (before @ e # after) =
     (case collectLoop pam [] before of
        Inl p \<Rightarrow> Inl p
      | Inr a \<Rightarrow>
          (case collectLoop pam [] [e] of
             Inl p \<Rightarrow> Inl p
           | Inr b \<Rightarrow>
               (case collectLoop pam [] after of Inl p \<Rightarrow> Inl p | Inr c \<Rightarrow> Inr (a @ b @ c))))"
proof -
  have "before @ e # after = before @ ([e] @ after)" by simp
  then show ?thesis
    unfolding collectLoop_append [of pam before "e # after"]
    using collectLoop_append [of pam "[e]" after]
    by (simp split: sum.splits del: collectLoop.simps(2))
qed


lemma SplitN_name_value:
  "CHR ''='' \<notin> set name \<Longrightarrow> envName (name @ ''='' @ v) = name \<and> envValue (name @ ''='' @ v) = v"
  by (induction name) (auto simp: envName_def envValue_def)


section \<open>Traces and panics of mainImpl and main\<close>

lemma toIface_Nil_iff: "toIface err = Nil \<longleftrightarrow> err = None"
  by (cases err) simp_all

lemma selectTable_Inl_not_Nil: "selectTable getenv = Inl p \<Longrightarrow> p \<noteq> Nil"
  by (auto simp: selectTable_def Let_def split: if_splits dest: parseTargetTable_Inl_not_Nil)

lemma collectProtectedSubnets_Inl_not_Nil:
  "collectProtectedSubnets pam es = Inl p \<Longrightarrow> p \<noteq> Nil"
  unfolding collectProtectedSubnets_def by (rule collectLoop_Inl_not_Nil)

lemma resourceLoop_trace:
  "resourceLoop params hostname table nets resources = (t, r) \<Longrightarrow>
     createdManagers t = startedRuns t \<and> length (startedRuns t) \<le> 1 \<and>
     length (registeredOptions t) \<le> 1 \<and>
     (\<forall>options \<in> set (registeredOptions t).
        Hostname options = hostname \<and> Table options = table \<and> ProtectedSubnets options = nets \<and>
        RouteManager options = newRouterManager params \<and> GetGw options = getGw params)"
  by (induction resources) (auto simp: Let_def split: if_splits option.splits)

lemma resourceLoop_found:
  "resourceLoop params hostname table nets resources = (t, r) \<Longrightarrow>
     (if \<exists>res \<in> set resources. Kind res = ''StaticRoute''
      then startedRuns t = [newRouterManager params] \<and> r \<noteq> Inr False
      else t = [] \<and> r = Inr False)"
  by (induction resources) (auto simp: Let_def split: if_splits option.splits)

lemma mainImpl_env_panic:
  assumes "collectProtectedSubnets pam (osEnv params) = Inl q"
  shows "\<exists>t p. mainImpl pam params = (t, Inl p) \<and> p \<noteq> Nil \<and> onlyLogs t"
proof -
  have q: "q \<noteq> Nil" using assms by (rule collectProtectedSubnets_Inl_not_Nil)
  show ?thesis
    using assms q
    by (auto simp: mainImpl_def Let_def onlyLogs_def toIface_Nil_iff
        split: prod.splits sum.splits dest: selectTable_Inl_not_Nil)
qed

lemma main_exit_1_iff:
  "snd (main pam RouteGet os) = 1 \<longleftrightarrow>
     (\<exists>t p. mainImpl pam (collaborators.extend os (mainImplParams.fields (main_getGw RouteGet)))
               = (t, Inl p) \<and> p \<noteq> Nil)"
  by (auto simp: main_def split: prod.splits sum.splits)

lemma osEnv_extend: "osEnv (collaborators.extend os ext) = osEnv os"
  by (simp add: collaborators.extend_def)

lemma main_env_panic:
  assumes "collectProtectedSubnets pam (osEnv os) = Inl q"
  shows "snd (main pam RouteGet os) = 1 \<and> registeredOptions (fst (main pam RouteGet os)) = []"
proof -
  let ?params = "collaborators.extend os (mainImplParams.fields (main_getGw RouteGet))"
  have "collectProtectedSubnets pam (osEnv ?params) = Inl q"
    using assms by (simp add: osEnv_extend)
  then obtain t p where tp: "mainImpl pam ?params = (t, Inl p)" "p \<noteq> Nil" "onlyLogs t"
    using mainImpl_env_panic by blast
  have "registeredOptions (t @ [LogRecovered p]) = []"
    using tp(3) by (induction t rule: registeredOptions.induct) (auto simp: onlyLogs_def)
  then show ?thesis
    using tp by (simp add: main_def)
qed

lemma createdManagers_append: "createdManagers (a @ b) = createdManagers a @ createdManagers b"
  by (induction a rule: createdManagers.induct) simp_all

lemma startedRuns_append: "startedRuns (a @ b) = startedRuns a @ startedRuns b"
  by (induction a rule: startedRuns.induct) simp_all

lemma registeredOptions_append:
  "registeredOptions (a @ b) = registeredOptions a @ registeredOptions b"
  by (induction a rule: registeredOptions.induct) simp_all

lemmas trace_append = createdManagers_append startedRuns_append registeredOptions_append

lemma mainImpl_trace:
  "createdManagers (fst (mainImpl pam params)) = startedRuns (fst (mainImpl pam params)) \<and>
   length (startedRuns (fst (mainImpl pam params))) \<le> 1 \<and>
   (\<forall>options \<in> set (registeredOptions (fst (mainImpl pam params))).
      selectTable (getEnv params) = Inr (Table options) \<and>
      collectProtectedSubnets pam (osEnv params) = Inr (ProtectedSubnets options) \<and>
      Hostname options = getEnv params ''NODE_HOSTNAME'' \<and>
      GetGw options = getGw params)"
proof -
  have loop: "createdManagers t = startedRuns t \<and> length (startedRuns t) \<le> 1 \<and>
       (\<forall>options \<in> set (registeredOptions t).
          Hostname options = hostname \<and> Table options = table \<and>
          ProtectedSubnets options = nets \<and> GetGw options = getGw params)"
    if "resourceLoop params hostname table nets resources = (t, r)"
    for hostname table nets resources t r
    using resourceLoop_trace [OF that] by blast
  show ?thesis
    by (auto simp: mainImpl_def Let_def trace_append
        split: prod.splits sum.splits option.splits dest!: loop)
qed

lemma resourceLoop_no_table_log:
  "resourceLoop params hostname table nets resources = (t, r) \<Longrightarrow> LogInfoKV k v n \<notin> set t"
  by (induction resources) (auto simp: Let_def split: if_splits option.splits)

lemma mainImpl_table_log:
  "LogInfoKV k v n \<in> set (fst (mainImpl pam params)) \<Longrightarrow> selectTable (getEnv params) = Inr n"
  by (auto simp: mainImpl_def Let_def
      split: prod.splits sum.splits option.splits if_splits dest: resourceLoop_no_table_log)


lemma main_startup_errors_exit_1:
  "(selectTable (getEnv os) = Inl q \<longrightarrow> snd (main pam RouteGet os) = 1) \<and>
   (collectProtectedSubnets pam (osEnv os) = Inl q \<longrightarrow> snd (main pam RouteGet os) = 1) \<and>
   (getEnv os ''NODE_HOSTNAME'' = [] \<longrightarrow> snd (main pam RouteGet os) = 1)"
proof -
  let ?params = "collaborators.extend os (mainImplParams.fields (main_getGw RouteGet))"
  have env: "getEnv ?params = getEnv os" "osEnv ?params = osEnv os"
    by (simp_all add: collaborators.extend_def)
  have table: "\<exists>t p. mainImpl pam ?params = (t, Inl p) \<and> p \<noteq> Nil"
    if "selectTable (getEnv os) = Inl q"
    using that selectTable_Inl_not_Nil [OF that]
    by (auto simp: mainImpl_def Let_def env toIface_Nil_iff split: prod.splits sum.splits)
  have host: "\<exists>t p. mainImpl pam ?params = (t, Inl p) \<and> p \<noteq> Nil"
    if "getEnv os ''NODE_HOSTNAME'' = []"
    using that
    by (auto simp: mainImpl_def Let_def env toIface_Nil_iff split: prod.splits sum.splits)
  show ?thesis
    using table host main_env_panic [of pam os q RouteGet]
    unfolding main_exit_1_iff by blast
qed

lemma main_missing_crd_general:
  assumes "getConfig os = None" "snd (newManager os) = None" "addToScheme os = None"
    and "getEnv os ''NODE_HOSTNAME'' \<noteq> []" "snd (newKubernetesConfig os) = None"
    and "ServerResourcesForGroupVersion (fst (newKubernetesConfig os)) ''static-route.ibm.com/v1''
           = (resources, None)"
    and "selectTable (getEnv os) = Inr table"
    and "collectProtectedSubnets pam (osEnv os) = Inr nets"
    and "\<forall>res \<in> set resources. Kind res \<noteq> ''StaticRoute''"
  shows "snd (main pam RouteGet os) = 0"
proof -
  let ?params = "collaborators.extend os (mainImplParams.fields (main_getGw RouteGet))"
  have loop: "resourceLoop ?params h table nets resources = ([], Inr False)" for h
    using assms(9) by (induction resources) auto
  have "snd (mainImpl pam ?params) = Inl Nil"
    using assms(1-8) loop
    by (auto simp: mainImpl_def Let_def collaborators.extend_def split: prod.splits)
  then show ?thesis
    by (auto simp: main_def split: prod.splits sum.splits)
qed

section \<open>The protected subnets\<close>

text \<open>
  Claim C3. \<^verbatim>\<open>collectProtectedSubnets\<close> returns exactly the networks that the
  specification describes: it returns \<open>nets\<close> if and only if every selected entry has
  the form \<^verbatim>\<open>NAME=value\<close> and the values of the selected variables, split on commas,
  each piece trimmed of spaces and parsed as a CIDR block, give \<open>nets\<close>, in the order of
  the environment and, within a variable, of the commas. \<^verbatim>\<open>mainImpl\<close> computes the
  list once, and every controller registration carries it.
\<close>

theorem collectProtectedSubnets_refines_spec:
  "(collectProtectedSubnets pam envVars = Inr nets \<longleftrightarrow>
      (\<forall>e \<in> set envVars. isProtectedSubnetVar e \<longrightarrow> CHR ''='' \<in> set e) \<and>
      spec_protectedSubnets pam envVars = map Inr nets) \<and>
   (\<forall>options \<in> set (registeredOptions (fst (mainImpl pam params))).
      spec_protectedSubnets pam (osEnv params) = map Inr (ProtectedSubnets options))"
proof -
  have returned: "collectProtectedSubnets pam envVars = Inr nets \<longleftrightarrow>
      (\<forall>e \<in> set envVars. isProtectedSubnetVar e \<longrightarrow> CHR ''='' \<in> set e) \<and>
      spec_protectedSubnets pam envVars = map Inr nets"
    unfolding collectProtectedSubnets_def by (rule collectLoop_Inr_iff)
  have used: "spec_protectedSubnets pam (osEnv params) = map Inr (ProtectedSubnets options)"
    if "options \<in> set (registeredOptions (fst (mainImpl pam params)))" for options
  proof -
    have "collectProtectedSubnets pam (osEnv params) = Inr (ProtectedSubnets options)"
      using that mainImpl_trace [of pam params] by blast
    then show ?thesis
      using collectLoop_Inr_iff [of pam "osEnv params" "ProtectedSubnets options"]
      by (simp add: collectProtectedSubnets_def)
  qed
  show ?thesis
    using returned used by blast
qed

theorem collectProtectedSubnets_refines_spec_witness:
  "list_all (\<lambda>e. CHR ''='' \<in> set e)
     [''PROTECTED_SUBNET_B=192.168.0.0/16'', ''HOME=/root'',
      ''PROTECTED_SUBNET_A= 10.0.0.0/8 ,192.168.0.0/16''] \<and>
   spec_pieces [''PROTECTED_SUBNET_B=192.168.0.0/16'', ''HOME=/root'',
                ''PROTECTED_SUBNET_A= 10.0.0.0/8 ,192.168.0.0/16'']
     = [''192.168.0.0/16'', ''10.0.0.0/8'', ''192.168.0.0/16''] \<and>
   collectProtectedSubnets example_parser
     [''PROTECTED_SUBNET_B=192.168.0.0/16'', ''HOME=/root'',
      ''PROTECTED_SUBNET_A= 10.0.0.0/8 ,192.168.0.0/16'']
     = Inr [\<lparr>IP = [192, 168, 0, 0], Mask = [255, 255, 0, 0]\<rparr>,
            \<lparr>IP = [10, 0, 0, 0], Mask = [255, 0, 0, 0]\<rparr>,
            \<lparr>IP = [192, 168, 0, 0], Mask = [255, 255, 0, 0]\<rparr>]"
proof -
  let ?env = "[''PROTECTED_SUBNET_B=192.168.0.0/16'', ''HOME=/root'',
               ''PROTECTED_SUBNET_A= 10.0.0.0/8 ,192.168.0.0/16'']"
  have entries: "list_all (\<lambda>e. CHR ''='' \<in> set e) ?env"
    by simp
  then have wf: "\<forall>e \<in> set ?env. isProtectedSubnetVar e \<longrightarrow> CHR ''='' \<in> set e"
    by simp
  have pieces: "spec_pieces ?env = [''192.168.0.0/16'', ''10.0.0.0/8'', ''192.168.0.0/16'']"
    by code_simp
  have parsed: "spec_protectedSubnets example_parser ?env
      = map Inr [\<lparr>IP = [192, 168, 0, 0], Mask = [255, 255, 0, 0]\<rparr>,
                 \<lparr>IP = [10, 0, 0, 0], Mask = [255, 0, 0, 0]\<rparr>,
                 \<lparr>IP = [192, 168, 0, 0], Mask = [255, 255, 0, 0]\<rparr>]"
    unfolding spec_protectedSubnets_def pieces
    by (simp add: ParseCIDR_def example_parser_def)
  show ?thesis
    using entries wf pieces parsed
      collectProtectedSubnets_refines_spec [of example_parser ?env
        "[\<lparr>IP = [192, 168, 0, 0], Mask = [255, 255, 0, 0]\<rparr>,
          \<lparr>IP = [10, 0, 0, 0], Mask = [255, 0, 0, 0]\<rparr>,
          \<lparr>IP = [192, 168, 0, 0], Mask = [255, 255, 0, 0]\<rparr>]"
        "example_params ?env []"]
    by blast
qed

text \<open>
  Claim C4. If a piece of a protected-subnet variable fails to parse,
  \<^verbatim>\<open>collectProtectedSubnets\<close> panics with a non-nil value. It either panics or returns
  the complete list, one network for each piece, never a part of it. With such a piece
  in the environment \<^verbatim>\<open>main\<close> exits with status 1 and registers no controller.
\<close>

theorem collectProtectedSubnets_all_or_nothing:
  "(piece \<in> set (spec_pieces envVars) \<and> ParseCIDR pam piece = Inl err \<longrightarrow>
      (\<exists>p. p \<noteq> Nil \<and> collectProtectedSubnets pam envVars = Inl p)) \<and>
   ((\<exists>p. p \<noteq> Nil \<and> collectProtectedSubnets pam envVars = Inl p) \<or>
    (\<exists>nets. collectProtectedSubnets pam envVars = Inr nets \<and>
       spec_protectedSubnets pam envVars = map Inr nets \<and>
       length nets = length (spec_pieces envVars))) \<and>
   (piece \<in> set (spec_pieces (osEnv os)) \<and> ParseCIDR pam piece = Inl err \<longrightarrow>
      snd (main pam RouteGet os) = 1 \<and> registeredOptions (fst (main pam RouteGet os)) = [])"
proof -
  have complete: "spec_protectedSubnets pam es = map Inr nets \<and>
                  length nets = length (spec_pieces es)"
    if "collectProtectedSubnets pam es = Inr nets" for es nets
  proof -
    have eq: "spec_protectedSubnets pam es = map Inr nets"
      using that collectLoop_Inr_iff [of pam es nets]
      by (simp add: collectProtectedSubnets_def)
    have "length (spec_protectedSubnets pam es) = length (spec_pieces es)"
      by (simp add: spec_protectedSubnets_def)
    then show ?thesis using eq by simp
  qed
  have fails: "\<exists>p. p \<noteq> Nil \<and> collectProtectedSubnets pam es = Inl p"
    if "piece \<in> set (spec_pieces es)" "ParseCIDR pam piece = Inl err" for es
  proof (cases "collectProtectedSubnets pam es")
    case (Inl p)
    then show ?thesis using collectProtectedSubnets_Inl_not_Nil by blast
  next
    case (Inr nets)
    then have "map (ParseCIDR pam) (spec_pieces es) = map Inr nets"
      using complete [of es nets] by (simp add: spec_protectedSubnets_def)
    then have "ParseCIDR pam piece \<in> set (map Inr nets)"
      using that(1) by (metis image_eqI list.set_map)
    then show ?thesis using that(2) by auto
  qed
  have total: "(\<exists>p. p \<noteq> Nil \<and> collectProtectedSubnets pam envVars = Inl p) \<or>
    (\<exists>nets. collectProtectedSubnets pam envVars = Inr nets \<and>
       spec_protectedSubnets pam envVars = map Inr nets \<and>
       length nets = length (spec_pieces envVars))"
  proof (cases "collectProtectedSubnets pam envVars")
    case (Inl p)
    then show ?thesis using collectProtectedSubnets_Inl_not_Nil by blast
  next
    case (Inr nets)
    then show ?thesis using complete [of envVars nets] by simp
  qed
  have startup: "snd (main pam RouteGet os) = 1 \<and>
                 registeredOptions (fst (main pam RouteGet os)) = []"
    if inenv: "piece \<in> set (spec_pieces (osEnv os))" and bad: "ParseCIDR pam piece = Inl err"
  proof -
    obtain p where "collectProtectedSubnets pam (osEnv os) = Inl p"
      using fails [OF inenv bad] by blast
    then show ?thesis by (rule main_env_panic)
  qed
  show ?thesis
    using fails [of envVars] total startup by blast
qed

theorem collectProtectedSubnets_all_or_nothing_witness:
  "''bogus'' \<in> set (spec_pieces [''NODE_HOSTNAME=node1'', ''PROTECTED_SUBNET_A=10.0.0.0/8,bogus'']) \<and>
   ParseCIDR example_parser ''bogus'' = Inl (ParseError ''CIDR address'' ''bogus'') \<and>
   (\<exists>p. p \<noteq> Nil \<and>
      collectProtectedSubnets example_parser
        [''NODE_HOSTNAME=node1'', ''PROTECTED_SUBNET_A=10.0.0.0/8,bogus''] = Inl p) \<and>
   snd (main example_parser example_RouteGet
          (example_collaborators [''NODE_HOSTNAME=node1'', ''PROTECTED_SUBNET_A=10.0.0.0/8,bogus'']
             [\<lparr>Name = ''staticroutes'', Kind = ''StaticRoute''\<rparr>])) = 1"
proof -
  let ?env = "[''NODE_HOSTNAME=node1'', ''PROTECTED_SUBNET_A=10.0.0.0/8,bogus'']"
  let ?os = "example_collaborators ?env [\<lparr>Name = ''staticroutes'', Kind = ''StaticRoute''\<rparr>]"
  have pieces: "spec_pieces ?env = [''10.0.0.0/8'', ''bogus'']"
    by code_simp
  have piece: "''bogus'' \<in> set (spec_pieces ?env)"
    unfolding pieces by simp
  have bad: "ParseCIDR example_parser ''bogus'' = Inl (ParseError ''CIDR address'' ''bogus'')"
    by (simp add: ParseCIDR_def)
  have env: "osEnv ?os = ?env"
    by (simp add: example_collaborators_def)
  show ?thesis
    using piece bad env
      collectProtectedSubnets_all_or_nothing [of "''bogus''" ?env example_parser
        "ParseError ''CIDR address'' ''bogus''" ?os example_RouteGet]
    by simp
qed

text \<open>
  Claim C9. A variable is selected by substring containment on its name. An entry whose
  name does not contain \<^verbatim>\<open>PROTECTED_SUBNET_\<close> contributes nothing: the result is the
  same without it. An entry \<^verbatim>\<open>NAME=value\<close> whose name contains \<^verbatim>\<open>PROTECTED_SUBNET_\<close>
  anywhere contributes the networks of its value, at its position in the environment.
\<close>

theorem protected_subnet_selection_by_substring:
  "(\<not> (\<exists>pre post. envName e = pre @ ''PROTECTED_SUBNET_'' @ post) \<longrightarrow>
      collectProtectedSubnets pam (before @ e # after)
        = collectProtectedSubnets pam (before @ after)) \<and>
   ((\<exists>pre post. envName e = pre @ ''PROTECTED_SUBNET_'' @ post) \<and> CHR ''='' \<in> set e \<longrightarrow>
      collectProtectedSubnets pam (before @ e # after) =
        (case collectProtectedSubnets pam before of
           Inl p \<Rightarrow> Inl p
         | Inr a \<Rightarrow>
             (case parseSubnets pam [] (Split (envValue e) '','') of
                Inl p \<Rightarrow> Inl p
              | Inr b \<Rightarrow>
                  (case collectProtectedSubnets pam after of
                     Inl p \<Rightarrow> Inl p
                   | Inr c \<Rightarrow> Inr (a @ b @ c)))))"
proof -
  have skip: "collectLoop pam [] (before @ e # after) = collectLoop pam [] (before @ after)"
    if "\<not> isProtectedSubnetVar e"
  proof -
    have "collectLoop pam [] [e] = Inr []"
      using that by (simp add: collectLoop_Cons del: collectLoop.simps(2))
    then show ?thesis
      unfolding collectLoop_middle [of pam before e after] collectLoop_append [of pam before after]
      by (simp split: sum.splits)
  qed
  have take: "collectLoop pam [] (before @ e # after) =
        (case collectLoop pam [] before of
           Inl p \<Rightarrow> Inl p
         | Inr a \<Rightarrow>
             (case parseSubnets pam [] (Split (envValue e) '','') of
                Inl p \<Rightarrow> Inl p
              | Inr b \<Rightarrow>
                  (case collectLoop pam [] after of
                     Inl p \<Rightarrow> Inl p
                   | Inr c \<Rightarrow> Inr (a @ b @ c))))"
    if "isProtectedSubnetVar e" "CHR ''='' \<in> set e"
  proof -
    have one: "collectLoop pam [] [e] = parseSubnets pam [] (Split (envValue e) '','')"
      using that by (simp add: collectLoop_Cons del: collectLoop.simps(2) split: sum.splits)
    show ?thesis
      unfolding collectLoop_middle [of pam before e after] one ..
  qed
  show ?thesis
    using skip take
    unfolding collectProtectedSubnets_def isProtectedSubnetVar_iff by blast
qed

theorem protected_subnet_selection_by_substring_witness:
  "envName ''X_PROTECTED_SUBNET_Y=10.0.0.0/8'' = ''X_'' @ ''PROTECTED_SUBNET_'' @ ''Y'' \<and>
   collectProtectedSubnets example_parser
     ([''HOME=/root''] @ ''X_PROTECTED_SUBNET_Y=10.0.0.0/8'' # [''PROTECTED_SUBNET=192.168.0.0/16''])
     = Inr [\<lparr>IP = [10, 0, 0, 0], Mask = [255, 0, 0, 0]\<rparr>] \<and>
   \<not> (\<exists>pre post. envName ''PROTECTED_SUBNET=192.168.0.0/16''
                     = pre @ ''PROTECTED_SUBNET_'' @ post) \<and>
   collectProtectedSubnets example_parser
     ([''HOME=/root''] @ ''PROTECTED_SUBNET=192.168.0.0/16'' # [])
     = collectProtectedSubnets example_parser ([''HOME=/root''] @ [])"
proof -
  let ?e = "''X_PROTECTED_SUBNET_Y=10.0.0.0/8''"
  let ?other = "''PROTECTED_SUBNET=192.168.0.0/16''"
  have name: "envName ?e = ''X_'' @ ''PROTECTED_SUBNET_'' @ ''Y''"
    by (simp add: envName_def)
  then have sel: "\<exists>pre post. envName ?e = pre @ ''PROTECTED_SUBNET_'' @ post"
    by blast
  have eq: "CHR ''='' \<in> set ?e"
    by simp
  have "\<not> Contains (envName ?other) ''PROTECTED_SUBNET_''"
    by (simp add: envName_def)
  then have unsel: "\<not> (\<exists>pre post. envName ?other = pre @ ''PROTECTED_SUBNET_'' @ post)"
    by (simp add: Contains_iff)
  have before: "collectProtectedSubnets example_parser [''HOME=/root''] = Inr []"
    by code_simp
  have after: "collectProtectedSubnets example_parser [?other] = Inr []"
    by code_simp
  have own: "parseSubnets example_parser [] (Split (envValue ?e) '','')
               = Inr [\<lparr>IP = [10, 0, 0, 0], Mask = [255, 0, 0, 0]\<rparr>]"
    by code_simp
  have first: "collectProtectedSubnets example_parser ([''HOME=/root''] @ ?e # [?other])
                 = Inr [\<lparr>IP = [10, 0, 0, 0], Mask = [255, 0, 0, 0]\<rparr>]"
    using sel eq before after own
      protected_subnet_selection_by_substring [of ?e example_parser "[''HOME=/root'']" "[?other]"]
    by simp
  have second: "collectProtectedSubnets example_parser ([''HOME=/root''] @ ?other # [])
                  = collectProtectedSubnets example_parser ([''HOME=/root''] @ [])"
    using unsel
      protected_subnet_selection_by_substring [of ?other example_parser "[''HOME=/root'']" "[]"]
    by blast
  show ?thesis
    using name first unsel second by blast
qed


text \<open>
  Claim C10. A protected-subnet variable whose value is the empty string is a fatal
  startup error: the empty value splits on commas into one empty piece, the CIDR parse
  of that piece fails, \<^verbatim>\<open>collectProtectedSubnets\<close> panics with the parse error, and
  \<^verbatim>\<open>main\<close> exits with status 1.
\<close>

theorem empty_protected_subnet_value_is_fatal:
  assumes "Contains name ''PROTECTED_SUBNET_''" and "CHR ''='' \<notin> set name"
  shows "Split [] '','' = [[]] \<and>
         ParseCIDR pam (Trim [] '' '') = Inl (ParseError ''CIDR address'' []) \<and>
         collectProtectedSubnets pam ((name @ ''='') # after)
           = Inl (ErrorVal (ParseError ''CIDR address'' [])) \<and>
         (\<exists>p. p \<noteq> Nil \<and> collectProtectedSubnets pam (before @ (name @ ''='') # after) = Inl p) \<and>
         (osEnv os = before @ (name @ ''='') # after \<longrightarrow> snd (main pam RouteGet os) = 1)"
proof -
  have split: "Split [] '','' = [[]]"
    by (simp add: Split_def SplitN_def)
  have parse: "ParseCIDR pam (Trim [] '' '') = Inl (ParseError ''CIDR address'' [])"
    by (simp add: ParseCIDR_def Trim_def)
  have nv: "envName (name @ ''='') = name" "envValue (name @ ''='') = []"
    using assms(2) SplitN_name_value [of name "[]"] by simp_all
  have sel: "isProtectedSubnetVar (name @ ''='')"
    using assms(1) nv(1) by (simp add: isProtectedSubnetVar_def)
  have one: "collectLoop pam [] [name @ ''=''] = Inl (ErrorVal (ParseError ''CIDR address'' []))"
    using sel nv(2) split parse
    by (simp add: collectLoop_Cons del: collectLoop.simps(2))
  have head: "collectProtectedSubnets pam ((name @ ''='') # after)
                = Inl (ErrorVal (ParseError ''CIDR address'' []))"
    using one collectLoop_middle [of pam "[]" "name @ ''=''" after]
    by (simp add: collectProtectedSubnets_def del: collectLoop.simps(2))
  have "\<exists>p. collectProtectedSubnets pam (before @ (name @ ''='') # after) = Inl p"
    using one collectLoop_middle [of pam before "name @ ''=''" after]
    by (simp add: collectProtectedSubnets_def split: sum.splits del: collectLoop.simps(2))
  then obtain p where p: "collectProtectedSubnets pam (before @ (name @ ''='') # after) = Inl p"
    by blast
  then have pn: "p \<noteq> Nil"
    by (rule collectProtectedSubnets_Inl_not_Nil)
  have "snd (main pam RouteGet os) = 1" if "osEnv os = before @ (name @ ''='') # after"
    using p that main_env_panic [of pam os p RouteGet] by simp
  then show ?thesis
    using split parse head p pn by blast
qed

theorem empty_protected_subnet_value_is_fatal_witness:
  "Contains ''PROTECTED_SUBNET_A'' ''PROTECTED_SUBNET_'' \<and> CHR ''='' \<notin> set ''PROTECTED_SUBNET_A'' \<and>
   collectProtectedSubnets example_parser [''PROTECTED_SUBNET_A='', ''HOME=/root'']
     = Inl (ErrorVal (ParseError ''CIDR address'' [])) \<and>
   snd (main example_parser example_RouteGet
          (example_collaborators [''NODE_HOSTNAME=node1'', ''PROTECTED_SUBNET_A='', ''HOME=/root'']
             [\<lparr>Name = ''staticroutes'', Kind = ''StaticRoute''\<rparr>])) = 1"
proof -
  let ?os = "example_collaborators [''NODE_HOSTNAME=node1'', ''PROTECTED_SUBNET_A='', ''HOME=/root'']
               [\<lparr>Name = ''staticroutes'', Kind = ''StaticRoute''\<rparr>]"
  have sel: "Contains ''PROTECTED_SUBNET_A'' ''PROTECTED_SUBNET_''"
    by simp
  have name: "CHR ''='' \<notin> set ''PROTECTED_SUBNET_A''"
    by simp
  have env: "osEnv ?os = [''NODE_HOSTNAME=node1''] @ (''PROTECTED_SUBNET_A'' @ ''='') # [''HOME=/root'']"
    by (simp add: example_collaborators_def)
  show ?thesis
    using sel name env
      empty_protected_subnet_value_is_fatal [OF sel name, of example_parser "[''HOME=/root'']"
        "[''NODE_HOSTNAME=node1'']" ?os example_RouteGet]
    by simp
qed

section \<open>The default table\<close>

text \<open>
  Claim C6. When \<^verbatim>\<open>TARGET_TABLE\<close> is unset, \<^verbatim>\<open>getEnv\<close> returning the empty string, the
  selected table is 254. \<^verbatim>\<open>parseTargetTable\<close> is not consulted: on the empty string it
  would panic. The table that \<^verbatim>\<open>mainImpl\<close> logs and the table of every controller
  registration is 254.
\<close>

theorem default_table_when_unset:
  assumes "getEnv params ''TARGET_TABLE'' = []"
  shows "selectTable (getEnv params) = Inr 254 \<and>
         (\<exists>p. parseTargetTable (getEnv params ''TARGET_TABLE'') = Inl p) \<and>
         (\<forall>options \<in> set (registeredOptions (fst (mainImpl pam params))). Table options = 254) \<and>
         (\<forall>k v n. LogInfoKV k v n \<in> set (fst (mainImpl pam params)) \<longrightarrow> n = 254)"
proof -
  have sel: "selectTable (getEnv params) = Inr 254"
    using assms by (simp add: selectTable_def defaultRouteTable_def)
  have notparsed: "\<exists>p. parseTargetTable (getEnv params ''TARGET_TABLE'') = Inl p"
    using assms by (simp add: parseTargetTable_def Atoi_def)
  have opts: "\<forall>options \<in> set (registeredOptions (fst (mainImpl pam params))). Table options = 254"
    using mainImpl_trace [of pam params] sel by auto
  have logs: "\<forall>k v n. LogInfoKV k v n \<in> set (fst (mainImpl pam params)) \<longrightarrow> n = 254"
    using mainImpl_table_log [of _ _ _ pam params] sel by auto
  show ?thesis
    using sel notparsed opts logs by blast
qed

theorem default_table_when_unset_witness:
  "getEnv (example_params [''NODE_HOSTNAME=node1'']
             [\<lparr>Name = ''staticroutes'', Kind = ''StaticRoute''\<rparr>]) ''TARGET_TABLE'' = [] \<and>
   selectTable (getEnv (example_params [''NODE_HOSTNAME=node1'']
             [\<lparr>Name = ''staticroutes'', Kind = ''StaticRoute''\<rparr>])) = Inr 254 \<and>
   map Table (registeredOptions (fst (mainImpl example_parser
       (example_params [''NODE_HOSTNAME=node1'']
          [\<lparr>Name = ''staticroutes'', Kind = ''StaticRoute''\<rparr>])))) = [254]"
proof -
  let ?params = "example_params [''NODE_HOSTNAME=node1'']
                   [\<lparr>Name = ''staticroutes'', Kind = ''StaticRoute''\<rparr>]"
  have unset: "getEnv ?params ''TARGET_TABLE'' = []"
    by (simp add: example_params_def example_collaborators_def collaborators.extend_def
        envName_def)
  have one: "length (registeredOptions (fst (mainImpl example_parser ?params))) = 1"
    by (simp add: mainImpl_def example_params_def example_collaborators_def
        collaborators.extend_def mainImplParams.fields_def selectTable_def defaultRouteTable_def
        collectProtectedSubnets_def SplitN_eq_2 envName_def envValue_def Let_def)
  then obtain options where
    opts: "registeredOptions (fst (mainImpl example_parser ?params)) = [options]"
    by (cases "registeredOptions (fst (mainImpl example_parser ?params))") auto
  show ?thesis
    using unset opts default_table_when_unset [OF unset, of example_parser]
    by simp
qed


section \<open>The route manager\<close>

text \<open>
  Claim C7. \<^verbatim>\<open>mainImpl\<close> creates at most one route manager and starts \<^verbatim>\<open>Run\<close> on it
  exactly once, by one \<^verbatim>\<open>go\<close> statement, however many resources were discovered: the
  managers created are the managers started, there is at most one of them, and the loop
  over the resources starts exactly one when a resource of kind \<^verbatim>\<open>StaticRoute\<close> is
  present and none otherwise.
\<close>

theorem route_manager_run_once:
  "createdManagers (fst (mainImpl pam params)) = startedRuns (fst (mainImpl pam params)) \<and>
   length (startedRuns (fst (mainImpl pam params))) \<le> 1 \<and>
   startedRuns (fst (resourceLoop params hostname table nets resources)) =
     (if \<exists>res \<in> set resources. Kind res = ''StaticRoute'' then [newRouterManager params] else [])"
proof -
  obtain t r where tr: "resourceLoop params hostname table nets resources = (t, r)"
    by (cases "resourceLoop params hostname table nets resources")
  have "startedRuns t =
     (if \<exists>res \<in> set resources. Kind res = ''StaticRoute'' then [newRouterManager params] else [])"
    using resourceLoop_found [OF tr] by (auto split: if_splits)
  then show ?thesis
    using mainImpl_trace [of pam params] tr by simp
qed

theorem route_manager_run_once_witness:
  "startedRuns (fst (mainImpl example_parser
       (example_params [''NODE_HOSTNAME=node1'']
          [\<lparr>Name = ''pods'', Kind = ''Pod''\<rparr>,
           \<lparr>Name = ''staticroutes'', Kind = ''StaticRoute''\<rparr>,
           \<lparr>Name = ''staticroutes/status'', Kind = ''StaticRoute''\<rparr>]))) = [0] \<and>
   createdManagers (fst (mainImpl example_parser
       (example_params [''NODE_HOSTNAME=node1'']
          [\<lparr>Name = ''pods'', Kind = ''Pod''\<rparr>,
           \<lparr>Name = ''staticroutes'', Kind = ''StaticRoute''\<rparr>,
           \<lparr>Name = ''staticroutes/status'', Kind = ''StaticRoute''\<rparr>]))) = [0]"
proof -
  let ?params = "example_params [''NODE_HOSTNAME=node1'']
          [\<lparr>Name = ''pods'', Kind = ''Pod''\<rparr>,
           \<lparr>Name = ''staticroutes'', Kind = ''StaticRoute''\<rparr>,
           \<lparr>Name = ''staticroutes/status'', Kind = ''StaticRoute''\<rparr>]"
  have started: "startedRuns (fst (mainImpl example_parser ?params)) = [0]"
    by (simp add: mainImpl_def example_params_def example_collaborators_def
        collaborators.extend_def mainImplParams.fields_def selectTable_def defaultRouteTable_def
        collectProtectedSubnets_def SplitN_eq_2 envName_def envValue_def Let_def)
  show ?thesis
    using started route_manager_run_once [of example_parser ?params]
    by simp
qed


section \<open>The exit status\<close>

text \<open>
  Claim C1. Every unrecoverable startup error ends the process with a non-zero exit
  status. By \<open>main_startup_errors_exit_1\<close> this holds for a bad table id, an unparsable
  protected-subnet CIDR block and a missing \<^verbatim>\<open>NODE_HOSTNAME\<close>. It does not hold when the
  \<^verbatim>\<open>StaticRoute\<close> kind is absent from the discovered resources: line 224 panics with
  \<^verbatim>\<open>err\<close>, which is \<^verbatim>\<open>nil\<close> after the check of line 183; \<^verbatim>\<open>recover()\<close> returns
  \<^verbatim>\<open>nil\<close>, the handler does not call \<^verbatim>\<open>os.Exit(1)\<close>, and \<^verbatim>\<open>main\<close> returns with
  exit status 0. The run below is that path, with node name \<^verbatim>\<open>node1\<close> and an empty list
  of discovered resources; \<open>main_missing_crd_general\<close> covers every run that reaches
  line 222 without a \<^verbatim>\<open>StaticRoute\<close> resource.
\<close>

theorem main_missing_crd_exits_0:
  "main example_parser example_RouteGet (example_collaborators [''NODE_HOSTNAME=node1''] []) =
     ([LogInfo (Sprintf ''Registering Components.'' []),
       LogInfo (Sprintf ''Node Hostname: %s'' [ArgString ''node1'']),
       LogInfo (Sprintf ''Registering Components.'' []),
       LogInfoKV ''Table selected'' ''value'' 254,
       LogInfo (Sprintf ''CRD not found: staticroutes.static-route.ibm.com'' [])], 0)"
  by (simp add: main_def mainImpl_def example_collaborators_def collaborators.extend_def
      mainImplParams.fields_def selectTable_def defaultRouteTable_def collectProtectedSubnets_def
      SplitN_eq_2 envName_def envValue_def)


end
